theory Spec2Isabelle
  imports Complex_Main
begin

section \<open>Python values\<close>

text \<open>
  A Python \<open>str\<close> is a sequence of Unicode code points, and \<open>len\<close> counts code points:
  the model is a list of code-point numbers. \<open>time.time()\<close> and the other floats of the
  program are modelled as reals: rounding is abstracted away.
\<close>

type_synonym pystr = "nat list"

definition str :: "string \<Rightarrow> pystr" where
  "str s = map of_char s"

text \<open>The code points for which \<open>str.isspace\<close> holds; \<open>str.strip()\<close> removes them at both ends.\<close>

definition isspace :: "nat \<Rightarrow> bool" where
  "isspace c = ((9 \<le> c \<and> c \<le> 13) \<or> (28 \<le> c \<and> c \<le> 32) \<or> c = 133 \<or> c = 160
     \<or> c = 5760 \<or> (8192 \<le> c \<and> c \<le> 8202) \<or> c = 8232 \<or> c = 8233 \<or> c = 8239
     \<or> c = 8287 \<or> c = 12288)"

definition strip :: "pystr \<Rightarrow> pystr" where
  "strip s = rev (dropWhile isspace (rev (dropWhile isspace s)))"

text \<open>
  \<open>str.lower()\<close> on the ASCII letters. Python's case table for the other code points is
  not part of the sources; they are left unchanged here, and no theorem below depends on
  what \<open>lower\<close> does to them.
\<close>

definition lower_cp :: "nat \<Rightarrow> nat" where
  "lower_cp c = (if 65 \<le> c \<and> c \<le> 90 then c + 32 else c)"

definition lower :: "pystr \<Rightarrow> pystr" where
  "lower s = map lower_cp s"

text \<open>\<open>s.startswith(k)\<close> and the substring test \<open>k in s\<close>.\<close>

fun startswith :: "pystr \<Rightarrow> pystr \<Rightarrow> bool" where
  "startswith s [] = True"
| "startswith [] (k # ks) = False"
| "startswith (c # s) (k # ks) = (c = k \<and> startswith s ks)"

fun contains :: "pystr \<Rightarrow> pystr \<Rightarrow> bool" where
  "contains k [] = (k = [])"
| "contains k (c # s) = (startswith (c # s) k \<or> contains k s)"

text \<open>\<open>any(p(x) for x in xs)\<close>.\<close>

fun py_any :: "('a \<Rightarrow> bool) \<Rightarrow> 'a list \<Rightarrow> bool" where
  "py_any p [] = False"
| "py_any p (x # xs) = (p x \<or> py_any p xs)"

text \<open>\<open>sep.join(xs)\<close>.\<close>

fun join :: "pystr \<Rightarrow> pystr list \<Rightarrow> pystr" where
  "join sep [] = []"
| "join sep [x] = x"
| "join sep (x # y # ys) = x @ sep @ join sep (y # ys)"

text \<open>\<open>s.split()\<close>: the maximal runs of non-space characters, with \<open>cur\<close> the run being read.\<close>

fun split_acc :: "pystr \<Rightarrow> pystr \<Rightarrow> pystr list" where
  "split_acc cur [] = (if cur = [] then [] else [cur])"
| "split_acc cur (c # s) =
     (if isspace c then (if cur = [] then split_acc [] s else cur # split_acc [] s)
      else split_acc (cur @ [c]) s)"

definition py_split :: "pystr \<Rightarrow> pystr list" where
  "py_split s = split_acc [] s"

text \<open>\<open>str(n)\<close> for a natural number: its decimal digits.\<close>

fun str_nat :: "nat \<Rightarrow> pystr" where
  "str_nat n = (if n < 10 then [48 + n] else str_nat (n div 10) @ [48 + n mod 10])"

declare str_nat.simps [simp del]

text \<open>
  The slice \<open>s[:k]\<close> for an integer \<open>k\<close>: a negative bound counts from the end, and a
  bound outside the string is clipped.
\<close>

definition slice_to :: "pystr \<Rightarrow> int \<Rightarrow> pystr" where
  "slice_to s k = (if k < 0 then take (nat (int (length s) + k)) s else take (nat k) s)"


section \<open>Relevance scorer\<close>

text \<open>
  \<open>Relevance.__init__\<close>: the three word lists are lower-cased at construction. The three
  compiled regular expressions are searched by the \<open>re\<close> library, which is not part of
  the sources: their \<open>search\<close> results are taken as the predicates of \<open>regexes\<close>.
\<close>

record relevance =
  kw_bonus :: "pystr list"
  ignore_sw :: "pystr list"
  ignore_contains :: "pystr list"

record regexes =
  url_re :: "pystr \<Rightarrow> bool"
  greetings_re :: "pystr \<Rightarrow> bool"
  thanks_re :: "pystr \<Rightarrow> bool"

definition Relevance :: "pystr list \<Rightarrow> pystr list \<Rightarrow> pystr list \<Rightarrow> relevance" where
  "Relevance keywords_bonus ignore_if_startswith ignore_contains_conf =
     \<lparr>kw_bonus = map lower keywords_bonus,
      ignore_sw = map lower ignore_if_startswith,
      ignore_contains = map lower ignore_contains_conf\<rparr>"

definition is_ignored :: "regexes \<Rightarrow> relevance \<Rightarrow> pystr \<Rightarrow> bool" where
  "is_ignored rx self text =
     (let low = strip (lower text)
      in if py_any (\<lambda>s. startswith low s) (ignore_sw self) then True
         else if py_any (\<lambda>c. contains c low) (ignore_contains self) then True
         else if url_re rx low then True
         else False)"

definition is_greeting :: "regexes \<Rightarrow> pystr \<Rightarrow> bool" where
  "is_greeting rx text = greetings_re rx text"

definition is_thanks :: "regexes \<Rightarrow> pystr \<Rightarrow> bool" where
  "is_thanks rx text = thanks_re rx text"

text \<open>
  \<open>Relevance.score\<close>: the running sum \<open>score\<close> of the source is threaded through the four
  tests in the source's order. Code points: \<open>?\<close> is 63, \<open>:\<close> 58, \<open>;\<close> 59, \<open>!\<close> 33.
\<close>

definition score :: "relevance \<Rightarrow> pystr \<Rightarrow> real" where
  "score self text =
     (let low = strip (lower text);
          s0 = 0;
          s1 = (if contains [63] low then s0 + 0.6 else s0);
          s2 = (if py_any (\<lambda>k. contains k low) (kw_bonus self) then s1 + 0.35 else s1);
          s3 = (if length low \<ge> 7 then s2 + 0.1 else s2);
          s4 = (if py_any (\<lambda>p. contains p low) [[58], [59], [33]] then s3 + 0.05 else s3)
      in min 1.0 s4)"

text \<open>
  The score as the specification words it, on the text and the keywords as they are
  given: the four bonuses added up and the sum clamped to 1.
\<close>

definition score_as_specified :: "pystr list \<Rightarrow> pystr \<Rightarrow> real" where
  "score_as_specified keywords text =
     min 1 ((if 63 \<in> set text then 0.6 else 0)
          + (if py_any (\<lambda>k. contains k text) keywords then 0.35 else 0)
          + (if 7 \<le> length text then 0.1 else 0)
          + (if 58 \<in> set text \<or> 59 \<in> set text \<or> 33 \<in> set text then 0.05 else 0))"

text \<open>The default bonus keywords of \<open>DEFAULT_SETTINGS\<close>.\<close>

definition default_keywords_bonus :: "pystr list" where
  "default_keywords_bonus = map str
     [''warum'', ''wieso'', ''wie'', ''wann'', ''wo'', ''wer'', ''was'', ''welche'',
      ''welcher'', ''welches'', ''why'', ''how'', ''when'', ''where'', ''who'', ''what'',
      ''which'', ''how much'', ''how many'']"


section \<open>Line trimming and the delivery queue\<close>

text \<open>\<open>_trim\<close>, with \<open>max_line_length\<close> of the style configuration as \<open>maxlen\<close>; the
  ellipsis character is the code point 8230.\<close>

definition trim :: "int \<Rightarrow> pystr \<Rightarrow> pystr" where
  "trim maxlen s0 =
     (let s = strip s0
      in if int (length s) \<le> maxlen then s else slice_to s (maxlen - 1) @ [8230])"

text \<open>\<open>send_to_animaze\<close>: the state is the message queue, oldest message first.\<close>

definition send_to_animaze :: "int \<Rightarrow> pystr \<Rightarrow> pystr list \<Rightarrow> pystr list" where
  "send_to_animaze maxlen text message_queue =
     (if text = [] then message_queue else message_queue @ [trim maxlen text])"


section \<open>Event deduplicator\<close>

text \<open>
  \<open>EventDeduper\<close>: the \<open>OrderedDict\<close> is a list of (signature, expiry) pairs in insertion
  order, oldest first. The lock only serialises the callers and is not modelled: a call
  of \<open>seen\<close> is one atomic step from store to store, at the clock reading \<open>now\<close>.
\<close>

type_synonym odict = "(pystr \<times> real) list"

record deduper =
  ttl :: int
  store :: odict

definition EventDeduper :: "int \<Rightarrow> deduper" where
  "EventDeduper t = \<lparr>ttl = t, store = []\<rparr>"

text \<open>\<open>k in d\<close>, \<open>d.pop(k, None)\<close>, \<open>d[k] = v\<close> and \<open>d.popitem(last=False)\<close>. The last one
  raises \<open>KeyError\<close> on an empty dictionary; \<open>seen\<close> calls it on more than 5000 entries only.\<close>

definition od_mem :: "pystr \<Rightarrow> odict \<Rightarrow> bool" where
  "od_mem k d = (k \<in> set (map fst d))"

definition od_pop :: "pystr \<Rightarrow> odict \<Rightarrow> odict" where
  "od_pop k d = filter (\<lambda>e. fst e \<noteq> k) d"

definition od_set :: "pystr \<Rightarrow> real \<Rightarrow> odict \<Rightarrow> odict" where
  "od_set k v d =
     (if od_mem k d then map (\<lambda>e. if fst e = k then (k, v) else e) d else d @ [(k, v)])"

definition od_popitem_first :: "odict \<Rightarrow> odict" where
  "od_popitem_first d = tl d"

text \<open>The first three lines under the lock: the expired keys are collected, then popped.\<close>

definition expired_keys :: "real \<Rightarrow> odict \<Rightarrow> pystr list" where
  "expired_keys now d = map fst (filter (\<lambda>e. snd e < now) d)"

definition purge :: "real \<Rightarrow> odict \<Rightarrow> odict" where
  "purge now d = fold od_pop (expired_keys now d) d"

definition seen :: "deduper \<Rightarrow> pystr \<Rightarrow> real \<Rightarrow> bool \<times> deduper" where
  "seen self signature now =
     (let s1 = purge now (store self)
      in if od_mem signature s1 then (True, self\<lparr>store := s1\<rparr>)
         else
           (let s2 = od_set signature (now + real_of_int (ttl self)) s1;
                s3 = (if length s2 > 5000 then od_popitem_first s2 else s2)
            in (False, self\<lparr>store := s3\<rparr>)))"

text \<open>A sequence of calls, each with its signature and its clock reading, in order.\<close>

fun seen_all :: "deduper \<Rightarrow> (pystr \<times> real) list \<Rightarrow> deduper" where
  "seen_all self [] = self"
| "seen_all self (c # cs) = seen_all (snd (seen self (fst c) (snd c))) cs"


text \<open>A store at the cap: 5000 entries with distinct signatures, all expiring at 1000.\<close>

definition full_store :: odict where
  "full_store = map (\<lambda>n. ([n], 1000)) [0..<5000]"


section \<open>Token bucket\<close>

datatype py_error = ZeroDivisionError

text \<open>
  \<open>TokenBucket\<close>, with its \<open>asyncio.Lock\<close> as the flag \<open>locked\<close>. The lock is not
  re-entrant: \<open>acquire\<close> on a held lock waits until another task releases it. The bucket
  is a local variable of \<open>process_comments\<close>, the only task that calls \<open>take\<close>.
\<close>

record token_bucket =
  capacity :: int
  tokens :: real
  rate :: real
  updated :: real
  locked :: bool

definition TokenBucket :: "int \<Rightarrow> real \<Rightarrow> real \<Rightarrow> token_bucket" where
  "TokenBucket cap rate_per_sec now =
     \<lparr>capacity = max 1 cap, tokens = real_of_int cap, rate = rate_per_sec,
      updated = now, locked = False\<rparr>"

text \<open>The refill under the lock: \<open>elapsed\<close>, \<open>updated\<close> and the new token count.\<close>

definition refill :: "token_bucket \<Rightarrow> real \<Rightarrow> token_bucket" where
  "refill self now =
     (let elapsed = now - updated self
      in self\<lparr>updated := now,
               tokens := min (real_of_int (capacity self)) (tokens self + elapsed * rate self)\<rparr>)"

text \<open>
  \<open>TokenBucket.take\<close>, from a bucket and a clock reading to the outcome, the bucket and the clock
  reading at the return; \<open>None\<close> when the call never returns. \<open>asyncio.sleep(d)\<close> moves
  the clock by \<open>d\<close>. Waiting for the lock is the first branch: no other task holds or
  releases this lock, so the wait sees the same bucket again. The recursive call of the
  source stands inside the \<open>async with\<close> block, so it is made with the lock held, and
  the lock is released when the block is left, also by the exception of a zero rate.
\<close>

partial_function (option) take_token ::
  "token_bucket \<times> real \<Rightarrow> ((py_error + unit) \<times> token_bucket \<times> real) option" where
  "take_token a =
     (let self = fst a; now = snd a
      in if locked self then take_token (self, now)
         else
           (let b = refill (self\<lparr>locked := True\<rparr>) now
            in if tokens b < 1 then
                 (if rate b = 0 then Some (Inl ZeroDivisionError, b\<lparr>locked := False\<rparr>, now)
                  else
                    (let need = (1 - tokens b) / rate b
                     in Option.bind (take_token (b, now + max 0.01 need))
                          (\<lambda>r. Some (fst r, (fst (snd r))\<lparr>locked := False\<rparr>, snd (snd r)))))
               else Some (Inr (), b\<lparr>tokens := tokens b - 1, locked := False\<rparr>, now)))"


section \<open>Microphone hysteresis\<close>

text \<open>\<open>MicState\<close>: the flag and the two timestamps; the two events mirror the flag.\<close>

record mic_state =
  active :: bool
  last_active_ts :: real
  last_idle_ts :: real

definition mark_active :: "mic_state \<Rightarrow> real \<Rightarrow> mic_state" where
  "mark_active m now = (if \<not> active m then m\<lparr>active := True, last_active_ts := now\<rparr> else m)"

definition mark_idle :: "mic_state \<Rightarrow> real \<Rightarrow> mic_state" where
  "mark_idle m now = (if active m then m\<lparr>active := False, last_idle_ts := now\<rparr> else m)"

text \<open>The fields of \<open>MicrophoneMonitor\<close> that \<open>_callback\<close> reads and writes.\<close>

record mic_monitor =
  threshold :: real
  attack_ms :: int
  release_ms :: int
  last_above :: real
  last_below :: real
  attack_reached :: bool

definition MicrophoneMonitor :: "real \<Rightarrow> int \<Rightarrow> int \<Rightarrow> real \<Rightarrow> mic_monitor" where
  "MicrophoneMonitor silence_threshold attack release now =
     \<lparr>threshold = silence_threshold, attack_ms = attack, release_ms = release,
      last_above = 0, last_below = now, attack_reached = False\<rparr>"

definition MicState :: "real \<Rightarrow> mic_state" where
  "MicState now = \<lparr>active = False, last_active_ts = 0, last_idle_ts = now\<rparr>"

text \<open>
  \<open>_callback\<close> on one block of audio: \<open>rms\<close> is the level computed from the block and
  \<open>now\<close> the clock reading. The state is the monitor and the global \<open>mic\<close>.
\<close>

definition callback :: "mic_monitor \<times> mic_state \<Rightarrow> real \<times> real \<Rightarrow> mic_monitor \<times> mic_state" where
  "callback st sample =
     (let self = fst st; mic = snd st; now = fst sample; rms = snd sample
      in if rms \<ge> threshold self then
           (let self1 = (if \<not> attack_reached self
                         then self\<lparr>attack_reached := True, last_above := now\<rparr> else self);
                mic1 = (if (now - last_above self1) * 1000 \<ge> real_of_int (attack_ms self1)
                        then mark_active mic now else mic)
            in (self1\<lparr>last_below := now\<rparr>, mic1))
         else
           (if (now - last_below self) * 1000 \<ge> real_of_int (release_ms self)
            then (self\<lparr>attack_reached := False\<rparr>, mark_idle mic now)
            else (self, mic)))"

text \<open>The samples of a run, oldest first, as (clock reading, level) pairs.\<close>

fun callbacks :: "mic_monitor \<times> mic_state \<Rightarrow> (real \<times> real) list \<Rightarrow> mic_monitor \<times> mic_state" where
  "callbacks st [] = st"
| "callbacks st (x # xs) = callbacks (callback st x) xs"

text \<open>
  The start of the unbroken run of above-threshold samples that ends with the newest
  sample (\<open>None\<close> when the newest sample is below the threshold), on the samples newest
  first; and the condition that the signal has stayed above the threshold for at least
  \<open>attack\<close> milliseconds up to the newest sample.
\<close>

fun above_since :: "real \<Rightarrow> (real \<times> real) list \<Rightarrow> real option" where
  "above_since thr [] = None"
| "above_since thr (x # xs) =
     (if snd x \<ge> thr
      then (case above_since thr xs of None \<Rightarrow> Some (fst x) | Some t \<Rightarrow> Some t)
      else None)"

definition held_above :: "real \<Rightarrow> int \<Rightarrow> (real \<times> real) list \<Rightarrow> bool" where
  "held_above thr attack samples =
     (case above_since thr (rev samples) of
        None \<Rightarrow> False
      | Some t \<Rightarrow> (fst (last samples) - t) * 1000 \<ge> real_of_int attack)"


text \<open>The clock reading of the newest above-threshold sample, or \<open>c0\<close> when there is none.\<close>

definition newest_above :: "real \<Rightarrow> real \<Rightarrow> (real \<times> real) list \<Rightarrow> real" where
  "newest_above thr c0 samples =
     (let above = filter (\<lambda>x. snd x \<ge> thr) samples
      in if above = [] then c0 else fst (last above))"


section \<open>Outbox batcher\<close>

text \<open>
  \<open>OutboxBatcher\<close>. Its \<open>add\<close> and \<open>_flush_locked\<close> run on the batcher and the global
  message queue; \<open>maxlen\<close> is the line length that \<open>send_to_animaze\<close> trims to.
\<close>

record outbox =
  window_s :: int
  max_items :: int
  max_chars :: int
  sep :: pystr
  buffer :: "pystr list"
  first_ts :: "real option"

definition OutboxBatcher :: "int \<Rightarrow> int \<Rightarrow> int \<Rightarrow> pystr \<Rightarrow> outbox" where
  "OutboxBatcher w items chars separator =
     \<lparr>window_s = w, max_items = items, max_chars = chars, sep = separator,
      buffer = [], first_ts = None\<rparr>"

definition flush_locked :: "int \<Rightarrow> outbox \<times> pystr list \<Rightarrow> outbox \<times> pystr list" where
  "flush_locked maxlen st =
     (let self = fst st; message_queue = snd st
      in if buffer self = [] then (self, message_queue)
         else
           (let payload = join (sep self) (buffer self)
            in (self\<lparr>buffer := [], first_ts := None\<rparr>,
                send_to_animaze maxlen payload message_queue)))"

definition add :: "int \<Rightarrow> outbox \<times> pystr list \<Rightarrow> pystr \<Rightarrow> real \<Rightarrow> outbox \<times> pystr list" where
  "add maxlen st text now =
     (let self = fst st; message_queue = snd st
      in if text = [] then (self, message_queue)
         else
           (let self1 = self\<lparr>buffer := buffer self @ [strip text]\<rparr>;
                self2 = (if first_ts self1 = None then self1\<lparr>first_ts := Some now\<rparr> else self1);
                joined = join (sep self2) (buffer self2)
            in if int (length joined) > max_chars self2
                  \<or> int (length (buffer self2)) \<ge> max_items self2
               then flush_locked maxlen (self2, message_queue)
               else (self2, message_queue)))"

text \<open>The default outbox of \<open>DEFAULT_SETTINGS\<close>; the separator is a bullet (code point
  8226) between two spaces.\<close>

definition default_outbox :: outbox where
  "default_outbox = OutboxBatcher 8 8 320 [32, 8226, 32]"


section \<open>Viewers\<close>

record viewer =
  v_nick :: pystr
  joined :: real
  last_active :: real
  greeted :: bool

definition touch_viewer ::
  "(pystr \<rightharpoonup> viewer) \<Rightarrow> pystr \<Rightarrow> pystr \<Rightarrow> real \<Rightarrow> (pystr \<rightharpoonup> viewer)" where
  "touch_viewer viewers uid nick now =
     (let v = (case viewers uid of
                 None \<Rightarrow> \<lparr>v_nick = (if nick \<noteq> [] then nick else uid), joined = now,
                           last_active = now, greeted = False\<rparr>
               | Some v0 \<Rightarrow> v0);
          v1 = (if nick \<noteq> [] then v\<lparr>v_nick := nick\<rparr> else v);
          v2 = v1\<lparr>last_active := now\<rparr>
      in viewers(uid \<mapsto> v2))"


section \<open>Settings\<close>

text \<open>
  The entries of the settings that the modelled code reads: the \<open>comment\<close> section and
  \<open>style.max_line_length\<close>. \<open>default_settings\<close> holds the values of \<open>DEFAULT_SETTINGS\<close>.
\<close>

record settings =
  c_enabled :: int
  c_global_cooldown :: int
  c_per_user_cooldown :: int
  c_min_length :: int
  c_max_replies_per_min :: int
  c_reply_threshold :: real
  c_respond_to_greetings :: int
  c_greeting_cooldown :: int
  c_respond_to_thanks :: int
  c_ignore_if_startswith :: "pystr list"
  c_ignore_contains :: "pystr list"
  c_keywords_bonus :: "pystr list"
  c_max_line_length :: int

definition default_settings :: settings where
  "default_settings =
     \<lparr>c_enabled = 1, c_global_cooldown = 6, c_per_user_cooldown = 15, c_min_length = 3,
      c_max_replies_per_min = 20, c_reply_threshold = 0.6, c_respond_to_greetings = 1,
      c_greeting_cooldown = 360, c_respond_to_thanks = 1,
      c_ignore_if_startswith = [str ''!''],
      c_ignore_contains = [str ''http://'', str ''https://'', str ''discord.gg''],
      c_keywords_bonus = default_keywords_bonus,
      c_max_line_length = 140\<rparr>"


section \<open>Event listener\<close>

text \<open>
  The events of the feed, with the fields the handlers read: the user (\<open>uniqueId\<close>, \<open>id\<close>,
  \<open>nickname\<close>; a missing attribute is the empty string, as \<open>getattr\<close> defaults it), the
  comment text, the gift name and repeat count, the like count.
\<close>

record user =
  uniqueId :: pystr
  user_id :: pystr
  nickname :: pystr

datatype event =
    CommentEvent user pystr
  | GiftEvent user pystr nat
  | FollowEvent user
  | SubscribeEvent user
  | LikeEvent user nat
  | ShareEvent user
  | JoinEvent user

record item =
  item_uid :: pystr
  item_nick :: pystr
  item_text :: pystr

text \<open>
  The state the handlers of \<open>tiktok_listener\<close> share: the deduplicator, the queues
  (oldest entry first), the viewers, \<open>on_follow._last\<close>, and the calls of
  \<open>remember_event\<close> made so far (user, nickname, message) in place of the memory file.
\<close>

record listener =
  deduper :: deduper
  comment_queue :: "item list"
  gift_queue :: "event list"
  like_queue :: "event list"
  join_queue :: "event list"
  follow_queue :: "event list"
  share_queue :: "event list"
  subscribe_queue :: "event list"
  viewers :: "pystr \<rightharpoonup> viewer"
  remembered :: "(pystr \<times> pystr \<times> pystr) list"
  on_follow_last :: real

text \<open>\<open>getattr(evt.user, "uniqueId", "") or getattr(evt.user, "id", "")\<close>.\<close>

definition uid_of :: "user \<Rightarrow> pystr" where
  "uid_of u = (if uniqueId u \<noteq> [] then uniqueId u else user_id u)"

text \<open>\<open>make_sig\<close>; \<open>sha1\<close> stands for the hex digest of \<open>hashlib.sha1\<close>, and the bar is
  the code point 124.\<close>

definition make_sig :: "(pystr \<Rightarrow> pystr) \<Rightarrow> pystr \<Rightarrow> pystr list \<Rightarrow> pystr" where
  "make_sig sha1 prefix parts = sha1 (prefix @ [124] @ join [124] parts)"

definition on_comment ::
  "(pystr \<Rightarrow> pystr) \<Rightarrow> regexes \<Rightarrow> settings \<Rightarrow> user \<Rightarrow> pystr \<Rightarrow> real \<Rightarrow> listener \<Rightarrow> listener" where
  "on_comment sha1 rx cfg u comment now st =
     (let min_len = c_min_length cfg;
          scorer = Relevance (c_keywords_bonus cfg) (c_ignore_if_startswith cfg) (c_ignore_contains cfg);
          txt = strip comment; low = lower txt
      in if int (length low) < min_len \<or> is_ignored rx scorer low then st
         else
           (let uid = uid_of u
            in if uid = [] then st
               else
                 (let nick = (if nickname u \<noteq> [] then nickname u else uid);
                      sig = make_sig sha1 (str ''comment'') [uid, low];
                      r = seen (deduper st) sig now
                  in if fst r then st\<lparr>deduper := snd r\<rparr>
                     else st\<lparr>deduper := snd r,
                             viewers := touch_viewer (viewers st) uid nick now,
                             remembered := remembered st @ [(uid, nick, txt)],
                             comment_queue := comment_queue st
                               @ [\<lparr>item_uid = uid, item_nick = nick, item_text = low\<rparr>]\<rparr>)))"

definition on_gift ::
  "(pystr \<Rightarrow> pystr) \<Rightarrow> user \<Rightarrow> pystr \<Rightarrow> nat \<Rightarrow> real \<Rightarrow> listener \<Rightarrow> listener" where
  "on_gift sha1 u gift_name repeat_count now st =
     (let uid = uid_of u;
          sig = make_sig sha1 (str ''gift'') [uid, gift_name, str_nat repeat_count];
          r = seen (deduper st) sig now
      in if fst r then st\<lparr>deduper := snd r\<rparr>
         else st\<lparr>deduper := snd r,
                 gift_queue := gift_queue st @ [GiftEvent u gift_name repeat_count]\<rparr>)"

definition on_follow ::
  "(pystr \<Rightarrow> pystr) \<Rightarrow> settings \<Rightarrow> user \<Rightarrow> real \<Rightarrow> listener \<Rightarrow> listener" where
  "on_follow sha1 cfg u now st =
     (if now - on_follow_last st < real_of_int (c_global_cooldown cfg) then st
      else
        (let st1 = st\<lparr>on_follow_last := now\<rparr>;
             uid = uid_of u;
             sig = make_sig sha1 (str ''follow'') [uid];
             r = seen (deduper st1) sig now
         in if fst r then st1\<lparr>deduper := snd r\<rparr>
            else st1\<lparr>deduper := snd r, follow_queue := follow_queue st1 @ [FollowEvent u]\<rparr>))"

definition on_subscribe :: "(pystr \<Rightarrow> pystr) \<Rightarrow> user \<Rightarrow> real \<Rightarrow> listener \<Rightarrow> listener" where
  "on_subscribe sha1 u now st =
     (let uid = uid_of u;
          sig = make_sig sha1 (str ''subscribe'') [uid];
          r = seen (deduper st) sig now
      in if fst r then st\<lparr>deduper := snd r\<rparr>
         else st\<lparr>deduper := snd r, subscribe_queue := subscribe_queue st @ [SubscribeEvent u]\<rparr>)"

definition on_like :: "user \<Rightarrow> nat \<Rightarrow> listener \<Rightarrow> listener" where
  "on_like u count st = st\<lparr>like_queue := like_queue st @ [LikeEvent u count]\<rparr>"

definition on_share :: "(pystr \<Rightarrow> pystr) \<Rightarrow> user \<Rightarrow> real \<Rightarrow> listener \<Rightarrow> listener" where
  "on_share sha1 u now st =
     (let uid = uid_of u;
          sig = make_sig sha1 (str ''share'') [uid];
          r = seen (deduper st) sig now
      in if fst r then st\<lparr>deduper := snd r\<rparr>
         else st\<lparr>deduper := snd r, share_queue := share_queue st @ [ShareEvent u]\<rparr>)"

definition on_join :: "(pystr \<Rightarrow> pystr) \<Rightarrow> user \<Rightarrow> real \<Rightarrow> listener \<Rightarrow> listener" where
  "on_join sha1 u now st =
     (let uid = uid_of u
      in if uid = [] then st
         else
           (let nick = (if nickname u \<noteq> [] then nickname u else uid);
                sig = make_sig sha1 (str ''join'') [uid];
                r = seen (deduper st) sig now
            in if fst r then st\<lparr>deduper := snd r\<rparr>
               else st\<lparr>deduper := snd r,
                       viewers := touch_viewer (viewers st) uid nick now,
                       join_queue := join_queue st @ [JoinEvent u]\<rparr>))"

text \<open>The client calls the handler registered for the class of the event.\<close>

fun dispatch ::
  "(pystr \<Rightarrow> pystr) \<Rightarrow> regexes \<Rightarrow> settings \<Rightarrow> event \<Rightarrow> real \<Rightarrow> listener \<Rightarrow> listener" where
  "dispatch sha1 rx cfg (CommentEvent u c) now st = on_comment sha1 rx cfg u c now st"
| "dispatch sha1 rx cfg (GiftEvent u g n) now st = on_gift sha1 u g n now st"
| "dispatch sha1 rx cfg (FollowEvent u) now st = on_follow sha1 cfg u now st"
| "dispatch sha1 rx cfg (SubscribeEvent u) now st = on_subscribe sha1 u now st"
| "dispatch sha1 rx cfg (LikeEvent u n) now st = on_like u n st"
| "dispatch sha1 rx cfg (ShareEvent u) now st = on_share sha1 u now st"
| "dispatch sha1 rx cfg (JoinEvent u) now st = on_join sha1 u now st"

text \<open>
  The signature a handler looks up for an event: \<open>None\<close> for a like, whose handler
  computes none.
\<close>

fun event_sig :: "(pystr \<Rightarrow> pystr) \<Rightarrow> event \<Rightarrow> pystr option" where
  "event_sig sha1 (CommentEvent u c) =
     Some (make_sig sha1 (str ''comment'') [uid_of u, lower (strip c)])"
| "event_sig sha1 (GiftEvent u g n) = Some (make_sig sha1 (str ''gift'') [uid_of u, g, str_nat n])"
| "event_sig sha1 (FollowEvent u) = Some (make_sig sha1 (str ''follow'') [uid_of u])"
| "event_sig sha1 (SubscribeEvent u) = Some (make_sig sha1 (str ''subscribe'') [uid_of u])"
| "event_sig sha1 (LikeEvent u n) = None"
| "event_sig sha1 (ShareEvent u) = Some (make_sig sha1 (str ''share'') [uid_of u])"
| "event_sig sha1 (JoinEvent u) = Some (make_sig sha1 (str ''join'') [uid_of u])"

text \<open>What an event can reach after the deduplicator: the queues, the viewers and the memory.\<close>

definition downstream ::
  "listener \<Rightarrow> item list \<times> event list \<times> event list \<times> event list \<times> event list \<times> event list
     \<times> event list \<times> (pystr \<times> pystr \<times> pystr) list" where
  "downstream st =
     (comment_queue st, gift_queue st, like_queue st, join_queue st, follow_queue st,
      share_queue st, subscribe_queue st, remembered st)"

definition fresh_listener :: "int \<Rightarrow> listener" where
  "fresh_listener t =
     \<lparr>deduper = EventDeduper t, comment_queue = [], gift_queue = [], like_queue = [],
      join_queue = [], follow_queue = [], share_queue = [], subscribe_queue = [],
      viewers = Map.empty, remembered = [], on_follow_last = 0\<rparr>"


section \<open>Comment pipeline\<close>

text \<open>
  \<open>ResponseEngine.reply_to_comment\<close>. The request to the text-generation service, with
  its timeout of ten seconds, is the parameter \<open>completion\<close>: the content of the answer,
  or \<open>None\<close> when the request raises or times out. The answer is stripped and cut to 18
  words; the space is the code point 32 and the full stop 46.
\<close>

definition reply_to_comment ::
  "(pystr \<Rightarrow> pystr \<Rightarrow> pystr \<Rightarrow> pystr option) \<Rightarrow> pystr \<Rightarrow> pystr \<Rightarrow> pystr \<Rightarrow> pystr option" where
  "reply_to_comment completion nick text uid =
     (case completion nick text uid of
        None \<Rightarrow> None
      | Some content \<Rightarrow>
          (let reply = strip content; words = py_split reply
           in Some (if length words > 18 then join [32] (take 18 words) @ [46] else reply)))"

text \<open>
  The locals that \<open>process_comments\<close> sets before its loop, with the guard on the reply
  threshold, and the part of the settings the loop reads again.
\<close>

record locals =
  global_cd :: int
  per_user_cd :: int
  max_per_min :: int
  reply_threshold :: real
  resp_greet :: bool
  greet_cd :: int
  resp_thanks :: bool
  scorer :: relevance
  min_length :: int
  max_line_length :: int

definition process_comments_locals :: "settings \<Rightarrow> locals" where
  "process_comments_locals cfg =
     (let configured = c_reply_threshold cfg
      in \<lparr>global_cd = c_global_cooldown cfg,
          per_user_cd = c_per_user_cooldown cfg,
          max_per_min = c_max_replies_per_min cfg,
          reply_threshold = (if configured > 0.8 then 0.4 else configured),
          resp_greet = (c_respond_to_greetings cfg \<noteq> 0),
          greet_cd = c_greeting_cooldown cfg,
          resp_thanks = (c_respond_to_thanks cfg \<noteq> 0),
          scorer = Relevance (c_keywords_bonus cfg) (c_ignore_if_startswith cfg)
                     (c_ignore_contains cfg),
          min_length = c_min_length cfg,
          max_line_length = c_max_line_length cfg\<rparr>)"

text \<open>
  The state of the loop: its two cooldown variables, the \<open>last_greet\<close> entries of the
  memory, the bucket, the global batcher (\<open>None\<close> until \<open>start_all\<close> sets it), the message
  queue, the comment queue, the viewers and the clock. \<open>asyncio.sleep(d)\<close> moves the clock
  by \<open>d\<close>, and \<open>time.time()\<close> reads it.
\<close>

record pipeline =
  next_allowed_global :: real
  per_user_until_local :: "pystr \<rightharpoonup> real"
  mem_last_greet :: "pystr \<rightharpoonup> real"
  bucket :: token_bucket
  batcher :: "outbox option"
  message_queue :: "pystr list"
  comment_queue_p :: "item list"
  viewers_p :: "pystr \<rightharpoonup> viewer"
  clock :: real

definition process_comments_start :: "settings \<Rightarrow> outbox option \<Rightarrow> real \<Rightarrow> pipeline" where
  "process_comments_start cfg b now =
     \<lparr>next_allowed_global = 0, per_user_until_local = Map.empty, mem_last_greet = Map.empty,
      bucket = TokenBucket (c_max_replies_per_min cfg)
                 (real_of_int (max 1 (c_max_replies_per_min cfg)) / 60) now,
      batcher = b, message_queue = [], comment_queue_p = [], viewers_p = Map.empty,
      clock = now\<rparr>"

text \<open>\<open>per_user_until_local.get(uid, 0)\<close> and \<open>u.get("last_greet", 0)\<close>.\<close>

definition user_timer :: "pipeline \<Rightarrow> pystr \<Rightarrow> real" where
  "user_timer st uid = (case per_user_until_local st uid of None \<Rightarrow> 0 | Some t \<Rightarrow> t)"

definition greet_timer :: "pipeline \<Rightarrow> pystr \<Rightarrow> real" where
  "greet_timer st uid = (case mem_last_greet st uid of None \<Rightarrow> 0 | Some t \<Rightarrow> t)"

text \<open>\<open>_mem_user\<close>: a user without a record gets one, with \<open>last_greet\<close> at 0.\<close>

definition mem_user :: "pipeline \<Rightarrow> pystr \<Rightarrow> pipeline" where
  "mem_user st uid =
     (if mem_last_greet st uid = None then st\<lparr>mem_last_greet := (mem_last_greet st)(uid \<mapsto> 0)\<rparr>
      else st)"

text \<open>
  \<open>await bucket.take()\<close>, followed by the rest \<open>k\<close> of the branch: the step never returns
  when \<open>take\<close> does not, and an exception of \<open>take\<close> ends the step in the handler of the
  loop, which only logs it.
\<close>

definition take_then :: "pipeline \<Rightarrow> (pipeline \<Rightarrow> pipeline) \<Rightarrow> pipeline option" where
  "take_then st k =
     (case take_token (bucket st, clock st) of
        None \<Rightarrow> None
      | Some r \<Rightarrow>
          (let st1 = st\<lparr>bucket := fst (snd r), clock := snd (snd r)\<rparr>
           in case fst r of Inl e \<Rightarrow> Some st1 | Inr u \<Rightarrow> Some (k st1)))"

text \<open>The wait for the global cooldown.\<close>

definition wait_global :: "pipeline \<Rightarrow> pipeline" where
  "wait_global st =
     (if clock st < next_allowed_global st
      then st\<lparr>clock := clock st + max 0.01 (next_allowed_global st - clock st)\<rparr>
      else st)"

text \<open>\<open>if batcher: await batcher.add(text)\<close>.\<close>

definition batcher_add :: "locals \<Rightarrow> pystr \<Rightarrow> pipeline \<Rightarrow> pipeline" where
  "batcher_add loc text st =
     (case batcher st of
        None \<Rightarrow> st
      | Some b \<Rightarrow>
          (let r = add (max_line_length loc) (b, message_queue st) text (clock st)
           in st\<lparr>batcher := Some (fst r), message_queue := snd r\<rparr>))"

text \<open>The two assignments that end a reply: the global and the per-user cooldown.\<close>

definition set_cooldowns :: "locals \<Rightarrow> pystr \<Rightarrow> pipeline \<Rightarrow> pipeline" where
  "set_cooldowns loc uid st =
     st\<lparr>next_allowed_global := clock st + real_of_int (global_cd loc),
        per_user_until_local :=
          (per_user_until_local st)(uid \<mapsto> clock st + real_of_int (per_user_cd loc))\<rparr>"

text \<open>
  The thanks branch and the scored branch of the loop body, reached when the greeting
  branch has not answered. The arrow of the reply fragment is the code point 8594.
\<close>

definition thanks_or_reply ::
  "locals \<Rightarrow> regexes \<Rightarrow> (pystr \<Rightarrow> pystr \<Rightarrow> pystr \<Rightarrow> pystr option) \<Rightarrow> item \<Rightarrow> pipeline
     \<Rightarrow> pipeline option" where
  "thanks_or_reply loc rx completion it st =
     (let txt = item_text it; uid = item_uid it; nick = item_nick it;
          score1 = score (scorer loc) txt
      in if resp_thanks loc \<and> is_thanks rx txt then
           take_then st (\<lambda>s. set_cooldowns loc uid
             (batcher_add loc (nick @ str '' bedankt sich'') (wait_global s)))
         else if score1 \<ge> reply_threshold loc then
           take_then st (\<lambda>s.
             (let s1 = wait_global s;
                  reply = reply_to_comment completion nick txt uid
              in case reply of
                   None \<Rightarrow> s1
                 | Some rep \<Rightarrow>
                     (if rep \<noteq> [] \<and> batcher s1 \<noteq> None
                      then set_cooldowns loc uid
                             (batcher_add loc
                                ([64] @ nick @ str '': '' @ txt @ [32, 8594, 32] @ rep) s1)
                      else s1)))
         else Some st)"

text \<open>
  One pass of the loop of \<open>process_comments\<close> on the item taken from the comment queue;
  \<open>None\<close> when the pass never ends. The question mark is the code point 63.
\<close>

definition process_item ::
  "locals \<Rightarrow> regexes \<Rightarrow> (pystr \<Rightarrow> pystr \<Rightarrow> pystr \<Rightarrow> pystr option) \<Rightarrow> pipeline \<Rightarrow> item
     \<Rightarrow> pipeline option" where
  "process_item loc rx completion st0 it =
     (let txt = item_text it; uid = item_uid it; nick = item_nick it;
          st = st0\<lparr>viewers_p := touch_viewer (viewers_p st0) uid nick (clock st0)\<rparr>;
          now = clock st
      in if int (length txt) < min_length loc \<or> is_ignored rx (scorer loc) txt then Some st
         else if now < user_timer st uid then
           Some (st\<lparr>clock := clock st + 0.05, comment_queue_p := comment_queue_p st @ [it]\<rparr>)
         else if resp_greet loc \<and> is_greeting rx txt \<and> \<not> contains [63] txt
                 \<and> length (py_split txt) \<le> 4 then
           (let st1 = mem_user st uid
            in if now - greet_timer st1 uid \<ge> real_of_int (greet_cd loc) then
                 take_then (st1\<lparr>mem_last_greet := (mem_last_greet st1)(uid \<mapsto> now)\<rparr>)
                   (\<lambda>s. set_cooldowns loc uid
                      (batcher_add loc (nick @ str '' sagt hallo'') (wait_global s)))
               else thanks_or_reply loc rx completion it st1)
         else thanks_or_reply loc rx completion it st)"

text \<open>
  The three cooldown timers as the loop reads them, and the narration a state holds: the
  buffer of the batcher and the message queue.
\<close>

definition timers :: "pipeline \<Rightarrow> real \<times> (pystr \<Rightarrow> real) \<times> (pystr \<Rightarrow> real)" where
  "timers st = (next_allowed_global st, user_timer st, greet_timer st)"

definition narration :: "pipeline \<Rightarrow> pystr list \<times> pystr list" where
  "narration st = (case batcher st of None \<Rightarrow> [] | Some b \<Rightarrow> buffer b, message_queue st)"

text \<open>
  A fragment has been enqueued between two states: the buffer of the batcher holds it
  as a new last entry, or the batch that ends with it has been flushed to the message queue.
\<close>

definition enqueued :: "locals \<Rightarrow> pipeline \<Rightarrow> pipeline \<Rightarrow> bool" where
  "enqueued loc st st' =
     (case batcher st of
        None \<Rightarrow> False
      | Some b \<Rightarrow>
          (case batcher st' of
             None \<Rightarrow> False
           | Some b' \<Rightarrow>
               (length (buffer b') = length (buffer b) + 1 \<and> message_queue st' = message_queue st)
               \<or> (buffer b' = [] \<and> length (message_queue st') = length (message_queue st) + 1)))"

text \<open>The pass reaches the call of the text-generation service.\<close>

definition reaches_generation :: "locals \<Rightarrow> regexes \<Rightarrow> pipeline \<Rightarrow> item \<Rightarrow> bool" where
  "reaches_generation loc rx st it =
     (let txt = item_text it; uid = item_uid it
      in \<not> (int (length txt) < min_length loc \<or> is_ignored rx (scorer loc) txt)
         \<and> \<not> clock st < user_timer st uid
         \<and> \<not> (resp_greet loc \<and> is_greeting rx txt \<and> \<not> contains [63] txt
                \<and> length (py_split txt) \<le> 4
                \<and> clock st - greet_timer st uid \<ge> real_of_int (greet_cd loc))
         \<and> \<not> (resp_thanks loc \<and> is_thanks rx txt)
         \<and> score (scorer loc) txt \<ge> reply_threshold loc
         \<and> (case take_token (bucket st, clock st) of
               None \<Rightarrow> False
             | Some r \<Rightarrow> fst r = Inr ()))"


section \<open>Properties of the deduplicator\<close>

lemma contains_singleton: "contains [c] s = (c \<in> set s)"
  by (induction s) auto

lemma in_set_tl: "x \<in> set (tl xs) \<Longrightarrow> x \<in> set xs"
  by (cases xs) auto

lemma fold_od_pop: "fold od_pop ks d = filter (\<lambda>e. fst e \<notin> set ks) d"
  by (induction ks arbitrary: d) (auto simp: od_pop_def intro: filter_cong)

lemma purge_filter: "purge now d = filter (\<lambda>e. fst e \<notin> set (expired_keys now d)) d"
  by (simp add: purge_def fold_od_pop)

lemma expired_keys_iff: "k \<in> set (expired_keys now d) \<longleftrightarrow> (\<exists>e\<in>set d. fst e = k \<and> snd e < now)"
  by (auto simp: expired_keys_def)

lemma length_purge: "length (purge now d) \<le> length d"
  by (simp add: purge_filter)

lemma set_purge: "set (purge now d) \<subseteq> set d"
  by (auto simp: purge_filter)

lemma purge_none: "\<forall>e\<in>set d. \<not> snd e < now \<Longrightarrow> purge now d = d"
  by (simp add: purge_def expired_keys_def)

lemma od_mem_purge: "od_mem k (purge now d) \<longleftrightarrow> od_mem k d \<and> k \<notin> set (expired_keys now d)"
  by (auto simp: od_mem_def purge_filter)

text \<open>A signature that is not in the store is reported new and stored with its expiry.\<close>

lemma seen_fresh:
  assumes "\<not> od_mem k (store d)"
  shows "fst (seen d k now) = False"
    and "od_mem k (store (snd (seen d k now)))"
    and "\<forall>e\<in>set (store (snd (seen d k now))). fst e = k \<longrightarrow> snd e = now + real_of_int (ttl d)"
proof -
  let ?s1 = "purge now (store d)"
  have n: "\<not> od_mem k ?s1" using assms by (simp add: od_mem_purge)
  have ne: "length (?s1 @ [(k, now + real_of_int (ttl d))]) > 5000 \<Longrightarrow> ?s1 \<noteq> []" by auto
  show "fst (seen d k now) = False" using n by (simp add: seen_def Let_def)
  show "od_mem k (store (snd (seen d k now)))"
    using n ne by (auto simp: seen_def Let_def od_set_def od_popitem_first_def od_mem_def)
  show "\<forall>e\<in>set (store (snd (seen d k now))). fst e = k \<longrightarrow> snd e = now + real_of_int (ttl d)"
    using n ne by (auto simp: seen_def Let_def od_set_def od_popitem_first_def od_mem_def
        dest: list.set_sel(2)[rotated])
qed

text \<open>A stored signature whose expiry has not passed is reported as seen, and stays.\<close>

lemma seen_live:
  assumes "od_mem k (store d)" and "\<forall>e\<in>set (store d). fst e = k \<longrightarrow> snd e = E" and "now \<le> E"
  shows "fst (seen d k now) = True"
    and "od_mem k (store (snd (seen d k now)))"
    and "\<forall>e\<in>set (store (snd (seen d k now))). fst e = k \<longrightarrow> snd e = E"
proof -
  have nk: "k \<notin> set (expired_keys now (store d))"
    using assms(2,3) by (auto simp: expired_keys_iff)
  then have m: "od_mem k (purge now (store d))" using assms(1) by (simp add: od_mem_purge)
  then show "fst (seen d k now) = True" by (simp add: seen_def Let_def)
  show "od_mem k (store (snd (seen d k now)))" using m by (simp add: seen_def Let_def)
  show "\<forall>e\<in>set (store (snd (seen d k now))). fst e = k \<longrightarrow> snd e = E"
    using m assms(2) set_purge[of now "store d"] by (auto simp: seen_def Let_def)
qed

text \<open>A stored signature whose expiry has passed is purged and reported new again.\<close>

lemma seen_expired:
  assumes "od_mem k (store d)" and "\<forall>e\<in>set (store d). fst e = k \<longrightarrow> snd e = E" and "E < now"
  shows "fst (seen d k now) = False"
proof -
  have "k \<in> set (expired_keys now (store d))"
    using assms by (auto simp: expired_keys_iff od_mem_def)
  then have "\<not> od_mem k (purge now (store d))" by (simp add: od_mem_purge)
  then show ?thesis by (simp add: seen_def Let_def)
qed

text \<open>
  Claim C1. For a deduplicator whose store does not hold the signature, three calls of
  \<open>seen\<close> with it, at the clock readings \<open>t1\<close>, \<open>t2\<close> and \<open>t3\<close>, return false, true and
  false when the second call is made within the TTL of the first (\<open>t2 \<le> t1 + ttl\<close>) and
  the third after it has elapsed (\<open>t1 + ttl < t3\<close>).
\<close>

theorem seen_twice_then_expired:
  assumes "\<not> od_mem signature (store d)"
    and "t2 \<le> t1 + real_of_int (ttl d)"
    and "t1 + real_of_int (ttl d) < t3"
  shows "fst (seen d signature t1) = False
       \<and> fst (seen (snd (seen d signature t1)) signature t2) = True
       \<and> fst (seen (snd (seen (snd (seen d signature t1)) signature t2)) signature t3) = False"
proof -
  let ?d1 = "snd (seen d signature t1)"
  let ?d2 = "snd (seen ?d1 signature t2)"
  note a = seen_fresh[OF assms(1), of t1]
  note b = seen_live[OF a(2) a(3) assms(2)]
  have c: "fst (seen ?d2 signature t3) = False"
    by (rule seen_expired[OF b(2) b(3) assms(3)])
  show ?thesis using a(1) b(1) c by simp
qed

theorem seen_twice_then_expired_witness:
  "fst (seen (EventDeduper 600) (str ''a'') 0) = False
   \<and> fst (seen (snd (seen (EventDeduper 600) (str ''a'') 0)) (str ''a'') 10) = True
   \<and> fst (seen (snd (seen (snd (seen (EventDeduper 600) (str ''a'') 0)) (str ''a'') 10))
        (str ''a'') 601) = False"
  using seen_twice_then_expired[where d = "EventDeduper 600" and signature = "str ''a''"
      and ?t1.0 = 0 and ?t2.0 = 10 and ?t3.0 = 601]
  by (simp add: EventDeduper_def od_mem_def)

lemma length_seen: "length (store d) \<le> 5000 \<Longrightarrow> length (store (snd (seen d k now))) \<le> 5000"
  using length_purge[of now "store d"]
  by (auto simp: seen_def Let_def od_set_def od_popitem_first_def)

lemma length_seen_all: "length (store d) \<le> 5000 \<Longrightarrow> length (store (seen_all d cs)) \<le> 5000"
  by (induction cs arbitrary: d) (auto simp: length_seen)

lemma seen_evicts:
  assumes "\<not> od_mem k (purge now (store d))" and "length (purge now (store d)) \<ge> 5000"
  shows "store (snd (seen d k now)) = tl (purge now (store d)) @ [(k, now + real_of_int (ttl d))]"
proof -
  have "purge now (store d) \<noteq> []" using assms(2) by auto
  then show ?thesis using assms by (simp add: seen_def Let_def od_set_def od_popitem_first_def)
qed

lemma seen_keeps:
  assumes "\<not> od_mem k (purge now (store d))" and "length (purge now (store d)) < 5000"
  shows "store (snd (seen d k now)) = purge now (store d) @ [(k, now + real_of_int (ttl d))]"
  using assms by (simp add: seen_def Let_def od_set_def od_popitem_first_def)

text \<open>
  With a clock that does not run backwards the store is ordered by expiry, that is by
  the time of insertion: its first entry is the one inserted earliest.
\<close>

lemma sorted_seen:
  assumes "sorted (map snd (store d))" and "\<forall>e\<in>set (store d). snd e \<le> now + real_of_int (ttl d)"
  shows "sorted (map snd (store (snd (seen d k now))))"
proof -
  let ?s1 = "purge now (store d)"
  have s: "sorted (map snd ?s1)" using assms(1) by (simp add: purge_filter sorted_filter)
  have b: "\<forall>e\<in>set ?s1. snd e \<le> now + real_of_int (ttl d)"
    using assms(2) set_purge[of now "store d"] by auto
  have s2: "sorted (map snd (?s1 @ [(k, now + real_of_int (ttl d))]))"
    using s b by (auto simp: sorted_append)
  have s3: "sorted (map snd (tl (?s1 @ [(k, now + real_of_int (ttl d))])))"
    using s2 by (simp add: map_tl sorted_tl del: map_append)
  show ?thesis using s s2 s3 by (auto simp: seen_def Let_def od_set_def od_popitem_first_def)
qed

lemma bound_seen:
  assumes "\<forall>e\<in>set (store d). snd e \<le> now + real_of_int (ttl d)"
  shows "\<forall>e\<in>set (store (snd (seen d k now))). snd e \<le> now + real_of_int (ttl d)"
proof -
  have b: "\<forall>e\<in>set (purge now (store d)). snd e \<le> now + real_of_int (ttl d)"
    using assms set_purge[of now "store d"] by auto
  show ?thesis using b
    by (auto simp: seen_def Let_def od_set_def od_popitem_first_def dest!: in_set_tl)
qed

lemma ttl_seen: "ttl (snd (seen d k now)) = ttl d"
  by (simp add: seen_def Let_def)

lemma sorted_seen_all:
  assumes "sorted (map snd cs)" and "sorted (map snd (store d))"
    and "\<forall>e\<in>set (store d). \<forall>c\<in>set cs. snd e \<le> snd c + real_of_int (ttl d)"
  shows "sorted (map snd (store (seen_all d cs)))"
  using assms
proof (induction cs arbitrary: d)
  case Nil
  then show ?case by simp
next
  case (Cons c cs)
  let ?d1 = "snd (seen d (fst c) (snd c))"
  have b0: "\<forall>e\<in>set (store d). snd e \<le> snd c + real_of_int (ttl d)" using Cons.prems(3) by simp
  have s1: "sorted (map snd (store ?d1))" by (rule sorted_seen[OF Cons.prems(2) b0])
  have b1: "\<forall>e\<in>set (store ?d1). snd e \<le> snd c + real_of_int (ttl d)" by (rule bound_seen[OF b0])
  have le: "\<forall>c'\<in>set cs. snd c \<le> snd c'" using Cons.prems(1) by auto
  have b2: "\<forall>e\<in>set (store ?d1). \<forall>c'\<in>set cs. snd e \<le> snd c' + real_of_int (ttl ?d1)"
    using b1 le by (fastforce simp: ttl_seen)
  have "sorted (map snd cs)" using Cons.prems(1) by simp
  from Cons.IH[OF this s1 b2] show ?case by simp
qed

lemma full_store_live: "purge 10 full_store = full_store"
  by (rule purge_none) (auto simp: full_store_def)

lemma full_store_length: "length full_store = 5000"
  by (simp add: full_store_def del: upt_rec_numeral)

lemma full_store_fresh: "\<not> od_mem [5000] full_store"
  by (auto simp: od_mem_def full_store_def)

text \<open>
  Claim C8. After any sequence of calls of \<open>seen\<close> on a new deduplicator the store holds
  at most 5000 entries, and a call keeps a store within the cap. When a new signature is
  inserted into a purged store that already holds 5000 entries, exactly the first entry
  of the insertion order is evicted and the new one is appended; below the cap nothing
  is evicted. With clock readings that do not decrease, the store is ordered by expiry,
  so the first entry is the one inserted earliest.
\<close>

theorem store_cap_and_eviction:
  "length (store (seen_all (EventDeduper t) calls)) \<le> 5000
   \<and> (length (store d) \<le> 5000 \<longrightarrow> length (store (snd (seen d k now))) \<le> 5000)
   \<and> (\<not> od_mem k (purge now (store d)) \<longrightarrow> 5000 \<le> length (purge now (store d)) \<longrightarrow>
        store (snd (seen d k now)) = tl (purge now (store d)) @ [(k, now + real_of_int (ttl d))])
   \<and> (\<not> od_mem k (purge now (store d)) \<longrightarrow> length (purge now (store d)) < 5000 \<longrightarrow>
        store (snd (seen d k now)) = purge now (store d) @ [(k, now + real_of_int (ttl d))])
   \<and> (sorted (map snd calls) \<longrightarrow> sorted (map snd (store (seen_all (EventDeduper t) calls))))"
proof -
  have a: "length (store (seen_all (EventDeduper t) calls)) \<le> 5000"
    by (rule length_seen_all) (simp add: EventDeduper_def)
  have e: "sorted (map snd calls) \<Longrightarrow> sorted (map snd (store (seen_all (EventDeduper t) calls)))"
    by (rule sorted_seen_all) (simp_all add: EventDeduper_def)
  show ?thesis using a e length_seen seen_evicts seen_keeps by blast
qed

theorem store_cap_and_eviction_witness:
  "length (store (seen_all (EventDeduper 600) [(str ''a'', 0), (str ''b'', 1)])) \<le> 5000
   \<and> length (store (snd (seen \<lparr>ttl = 600, store = full_store\<rparr> [5000] 10))) \<le> 5000
   \<and> store (snd (seen \<lparr>ttl = 600, store = full_store\<rparr> [5000] 10)) = tl full_store @ [([5000], 610)]
   \<and> store (snd (seen (EventDeduper 600) (str ''a'') 0)) = [(str ''a'', 600)]
   \<and> sorted (map snd (store (seen_all (EventDeduper 600) [(str ''a'', 0), (str ''b'', 1)])))"
proof -
  have 1: "length (store \<lparr>ttl = 600, store = full_store\<rparr>) \<le> 5000"
    by (simp add: full_store_length)
  have 2: "\<not> od_mem [5000] (purge 10 (store \<lparr>ttl = 600, store = full_store\<rparr>))"
    by (simp add: full_store_live full_store_fresh)
  have 3: "5000 \<le> length (purge 10 (store \<lparr>ttl = 600, store = full_store\<rparr>))"
    by (simp add: full_store_live full_store_length)
  have 4: "sorted (map snd [(str ''a'', 0::real), (str ''b'', 1)])" by simp
  have 5: "\<not> od_mem (str ''a'') (purge 0 (store (EventDeduper 600)))"
    by (simp add: EventDeduper_def purge_def expired_keys_def od_mem_def)
  have 6: "length (purge 0 (store (EventDeduper 600))) < 5000"
    by (simp add: EventDeduper_def purge_def expired_keys_def)
  note t = store_cap_and_eviction[where t = 600 and calls = "[(str ''a'', 0), (str ''b'', 1)]"
      and d = "\<lparr>ttl = 600, store = full_store\<rparr>" and k = "[5000]" and now = 10]
  note u = store_cap_and_eviction[where d = "EventDeduper 600" and k = "str ''a''" and now = 0]
  have 7: "store (snd (seen (EventDeduper 600) (str ''a'') 0)) = [(str ''a'', 600)]"
    using u 5 6 by (simp add: EventDeduper_def purge_def expired_keys_def)
  show ?thesis using t 1 2 3 4 7 by (simp add: full_store_live)
qed


section \<open>Properties of the token bucket\<close>

text \<open>A call that finds the lock held never returns: nothing releases the lock.\<close>

lemma take_token_locked:
  assumes "take_token x = Some y" shows "\<not> locked (fst x)"
proof (rule take_token.raw_induct[where P = "\<lambda>x y. \<not> locked (fst x)", OF _ assms])
  fix tk a y
  assume ih: "\<And>a y. tk a = Some y \<Longrightarrow> \<not> locked (fst a)"
    and st: "(let self = fst a; now = snd a
      in if locked self then tk (self, now)
         else
           (let b = refill (self\<lparr>locked := True\<rparr>) now
            in if tokens b < 1 then
                 (if rate b = 0 then Some (Inl ZeroDivisionError, b\<lparr>locked := False\<rparr>, now)
                  else
                    (let need = (1 - tokens b) / rate b
                     in Option.bind (tk (b, now + max 0.01 need))
                          (\<lambda>r. Some (fst r, (fst (snd r))\<lparr>locked := False\<rparr>, snd (snd r)))))
               else Some (Inr (), b\<lparr>tokens := tokens b - 1, locked := False\<rparr>, now))) = Some y"
  show "\<not> locked (fst a)"
  proof
    assume l: "locked (fst a)"
    with st have "tk (fst a, snd a) = Some y" by (simp add: Let_def)
    from ih[OF this] l show False by simp
  qed
qed

lemma take_token_locked_None: "locked b \<Longrightarrow> take_token (b, now) = None"
  using take_token_locked[of "(b, now)"] by (cases "take_token (b, now)") auto

text \<open>With a token in the bucket after the refill, the call returns at once with one token less.\<close>

lemma take_token_available:
  assumes "\<not> locked b" and "1 \<le> tokens (refill (b\<lparr>locked := True\<rparr>) now)"
  shows "take_token (b, now)
         = Some (Inr (), (refill (b\<lparr>locked := True\<rparr>) now)
                   \<lparr>tokens := tokens (refill (b\<lparr>locked := True\<rparr>) now) - 1, locked := False\<rparr>, now)"
  using assms by (subst take_token.simps) (simp add: Let_def)

text \<open>
  With less than one token after the refill and a rate that is not zero, the call sleeps
  and calls itself with the lock still held: it never returns.
\<close>

lemma take_token_short:
  assumes "\<not> locked b" and "tokens (refill (b\<lparr>locked := True\<rparr>) now) < 1" and "rate b \<noteq> 0"
  shows "take_token (b, now) = None"
proof -
  have l: "locked (refill (b\<lparr>locked := True\<rparr>) now)" by (simp add: refill_def Let_def)
  have r: "rate (refill (b\<lparr>locked := True\<rparr>) now) \<noteq> 0" using assms(3) by (simp add: refill_def Let_def)
  show ?thesis
    using assms(1,2) r by (subst take_token.simps) (simp add: Let_def take_token_locked_None[OF l])
qed

text \<open>A call that returns leaves at least zero tokens, whatever the count was before.\<close>

lemma take_token_not_negative:
  assumes "take_token (b, now) = Some (Inr (), b', now')"
  shows "0 \<le> tokens b'"
proof -
  have nl: "\<not> locked b" using take_token_locked[OF assms] by simp
  show ?thesis
  proof (cases "tokens (refill (b\<lparr>locked := True\<rparr>) now) < 1")
    case True
    show ?thesis
    proof (cases "rate b = 0")
      case True
      have "rate (refill (b\<lparr>locked := True\<rparr>) now) = 0" using True by (simp add: refill_def Let_def)
      then have "take_token (b, now)
          = Some (Inl ZeroDivisionError, (refill (b\<lparr>locked := True\<rparr>) now)\<lparr>locked := False\<rparr>, now)"
        using nl \<open>tokens (refill (b\<lparr>locked := True\<rparr>) now) < 1\<close>
        by (subst take_token.simps) (simp add: Let_def)
      with assms show ?thesis by simp
    next
      case False
      from take_token_short[OF nl True False] assms show ?thesis by simp
    qed
  next
    case False
    then have ge: "1 \<le> tokens (refill (b\<lparr>locked := True\<rparr>) now)" by simp
    from take_token_available[OF nl ge] assms
    have "tokens b' = tokens (refill (b\<lparr>locked := True\<rparr>) now) - 1" by auto
    with ge show ?thesis by simp
  qed
qed

text \<open>
  Claim C2. The bucket of a pipeline configured for one reply a minute (capacity 1, one
  token every 60 seconds, created at clock reading 0) gives its token to a first call at
  0. A second call six seconds later finds 0.1 tokens; the claim has it return after the
  54 seconds the refill needs, with one token taken. The call never returns: after the
  sleep it calls \<open>take\<close> again inside the block that holds the lock.
\<close>

theorem take_token_never_returns:
  "take_token (TokenBucket 1 (1 / 60) 0, 0)
     = Some (Inr (), \<lparr>capacity = 1, tokens = 0, rate = 1 / 60, updated = 0, locked = False\<rparr>, 0)
   \<and> take_token (\<lparr>capacity = 1, tokens = 0, rate = 1 / 60, updated = 0, locked = False\<rparr>, 6) = None"
proof -
  have a: "take_token (TokenBucket 1 (1 / 60) 0, 0)
     = Some (Inr (), \<lparr>capacity = 1, tokens = 0, rate = 1 / 60, updated = 0, locked = False\<rparr>, 0)"
    by (subst take_token.simps) (simp add: TokenBucket_def refill_def)
  have b: "take_token (\<lparr>capacity = 1, tokens = 0, rate = 1 / 60, updated = 0, locked = False\<rparr>, 6) = None"
    by (rule take_token_short) (simp_all add: refill_def)
  show ?thesis using a b by simp
qed


section \<open>Properties of the microphone hysteresis\<close>

lemma callback_activates:
  assumes "\<not> active (snd st)" and "active (snd (callback st (now, rms)))"
  shows "rms \<ge> threshold (fst st)
       \<and> (now - last_above (fst (callback st (now, rms)))) * 1000 \<ge> real_of_int (attack_ms (fst st))"
  using assms by (auto simp: callback_def Let_def mark_active_def mark_idle_def split: if_splits)

lemma callback_idles:
  assumes "active (snd st)" and "\<not> active (snd (callback st (now, rms)))"
  shows "rms < threshold (fst st)
       \<and> (now - last_below (fst st)) * 1000 \<ge> real_of_int (release_ms (fst st))"
  using assms by (auto simp: callback_def Let_def mark_active_def mark_idle_def split: if_splits)

lemma callbacks_append: "callbacks st (xs @ ys) = callbacks (callbacks st xs) ys"
  by (induction xs arbitrary: st) auto

lemma callbacks_snoc: "callbacks st (xs @ [x]) = callback (callbacks st xs) x"
  by (simp add: callbacks_append)

lemma callback_consts:
  "threshold (fst (callback st x)) = threshold (fst st)"
  "attack_ms (fst (callback st x)) = attack_ms (fst st)"
  "release_ms (fst (callback st x)) = release_ms (fst st)"
  by (auto simp: callback_def Let_def)

lemma callbacks_consts:
  "threshold (fst (callbacks st xs)) = threshold (fst st)
   \<and> attack_ms (fst (callbacks st xs)) = attack_ms (fst st)
   \<and> release_ms (fst (callbacks st xs)) = release_ms (fst st)"
  by (induction xs arbitrary: st) (auto simp: callback_consts)

text \<open>
  While every above-threshold sample lies in a window that starts at \<open>t0\<close> and is
  shorter than the attack time, an idle microphone whose attack timer, if started, was
  started in the window stays idle.
\<close>

lemma callback_window:
  assumes "\<not> active (snd st)" and "attack_reached (fst st) \<longrightarrow> t0 \<le> last_above (fst st)"
    and "snd x \<ge> threshold (fst st) \<longrightarrow>
         t0 \<le> fst x \<and> (fst x - t0) * 1000 < real_of_int (attack_ms (fst st))"
  shows "\<not> active (snd (callback st x))
       \<and> (attack_reached (fst (callback st x)) \<longrightarrow> t0 \<le> last_above (fst (callback st x)))"
proof (cases "snd x \<ge> threshold (fst st)")
  case above: True
  with assms(3) have w: "t0 \<le> fst x" "(fst x - t0) * 1000 < real_of_int (attack_ms (fst st))"
    by auto
  show ?thesis
  proof (cases "attack_reached (fst st)")
    case True
    with assms(2) have "t0 \<le> last_above (fst st)" by simp
    then have "(fst x - last_above (fst st)) * 1000 < real_of_int (attack_ms (fst st))"
      using w(2) by simp
    then show ?thesis using True assms(1,2) above
      by (simp add: callback_def Let_def)
  next
    case False
    have "0 \<le> (fst x - t0) * 1000" using w(1) by simp
    then have "0 < real_of_int (attack_ms (fst st))" using w(2) by linarith
    then show ?thesis using False assms(1) w above
      by (simp add: callback_def Let_def)
  qed
next
  case False
  then show ?thesis using assms(1,2)
    by (auto simp: callback_def Let_def mark_idle_def)
qed

lemma callbacks_window:
  assumes "\<not> active (snd st)" and "attack_reached (fst st) \<longrightarrow> t0 \<le> last_above (fst st)"
    and "\<forall>x\<in>set xs. snd x \<ge> threshold (fst st) \<longrightarrow>
           t0 \<le> fst x \<and> (fst x - t0) * 1000 < real_of_int (attack_ms (fst st))"
  shows "\<not> active (snd (callbacks st xs))"
  using assms
proof (induction xs arbitrary: st)
  case Nil
  then show ?case by simp
next
  case (Cons x xs)
  have h: "snd x \<ge> threshold (fst st) \<longrightarrow>
           t0 \<le> fst x \<and> (fst x - t0) * 1000 < real_of_int (attack_ms (fst st))"
    using Cons.prems(3) by simp
  note c = callback_window[OF Cons.prems(1) Cons.prems(2) h]
  have "\<forall>y\<in>set xs. snd y \<ge> threshold (fst (callback st x)) \<longrightarrow>
          t0 \<le> fst y \<and> (fst y - t0) * 1000 < real_of_int (attack_ms (fst (callback st x)))"
    using Cons.prems(3) by (simp add: callback_consts)
  from Cons.IH[OF conjunct1[OF c] conjunct2[OF c] this] show ?case by simp
qed

lemma spike_never_active:
  assumes "\<forall>x\<in>set samples. snd x \<ge> thr \<longrightarrow> t0 \<le> fst x \<and> (fst x - t0) * 1000 < real_of_int att"
  shows "\<not> active (snd (callbacks (MicrophoneMonitor thr att rel c0, MicState c0) (take n samples)))"
proof (rule callbacks_window[where ?t0.0 = t0])
  show "\<not> active (snd (MicrophoneMonitor thr att rel c0, MicState c0))"
    by (simp add: MicState_def)
  show "attack_reached (fst (MicrophoneMonitor thr att rel c0, MicState c0)) \<longrightarrow>
        t0 \<le> last_above (fst (MicrophoneMonitor thr att rel c0, MicState c0))"
    by (simp add: MicrophoneMonitor_def)
  show "\<forall>x\<in>set (take n samples).
          threshold (fst (MicrophoneMonitor thr att rel c0, MicState c0)) \<le> snd x \<longrightarrow>
          t0 \<le> fst x \<and> (fst x - t0) * 1000
            < real_of_int (attack_ms (fst (MicrophoneMonitor thr att rel c0, MicState c0)))"
    using assms by (auto simp: MicrophoneMonitor_def dest: in_set_takeD)
qed

text \<open>What the two timestamps of the monitor hold after a run of samples.\<close>

lemma callback_last_above:
  assumes "attack_reached (fst st) \<longrightarrow>
           (\<exists>y\<in>set xs. snd y \<ge> threshold (fst st) \<and> fst y = last_above (fst st))"
  shows "attack_reached (fst (callback st x)) \<longrightarrow>
         (\<exists>y\<in>set (xs @ [x]). snd y \<ge> threshold (fst st) \<and> fst y = last_above (fst (callback st x)))"
  using assms by (auto simp: callback_def Let_def)

lemma newest_above_snoc:
  "newest_above thr c0 (xs @ [x]) = (if snd x \<ge> thr then fst x else newest_above thr c0 xs)"
  by (simp add: newest_above_def)

lemma callback_last_below:
  "last_below (fst (callback st x))
     = (if snd x \<ge> threshold (fst st) then fst x else last_below (fst st))"
  by (auto simp: callback_def Let_def)

lemma run_threshold:
  "threshold (fst (callbacks (MicrophoneMonitor thr att rel c0, MicState c0) xs)) = thr"
  using callbacks_consts[of "(MicrophoneMonitor thr att rel c0, MicState c0)" xs]
  by (simp add: MicrophoneMonitor_def)

lemma run_last_below:
  "last_below (fst (callbacks (MicrophoneMonitor thr att rel c0, MicState c0) samples))
     = newest_above thr c0 samples"
proof (induction samples rule: rev_induct)
  case Nil
  then show ?case by (simp add: MicrophoneMonitor_def newest_above_def)
next
  case (snoc x xs)
  then show ?case
    by (simp add: callbacks_snoc callback_last_below newest_above_snoc run_threshold)
qed

lemma run_last_above:
  "attack_reached (fst (callbacks (MicrophoneMonitor thr att rel c0, MicState c0) samples)) \<longrightarrow>
     (\<exists>y\<in>set samples. snd y \<ge> thr
        \<and> fst y = last_above (fst (callbacks (MicrophoneMonitor thr att rel c0, MicState c0) samples)))"
proof (induction samples rule: rev_induct)
  case Nil
  then show ?case by (simp add: MicrophoneMonitor_def)
next
  case (snoc x xs)
  from callback_last_above[of "callbacks (MicrophoneMonitor thr att rel c0, MicState c0) xs" xs x]
    snoc run_threshold[of thr att rel c0 xs]
  show ?case by (simp add: callbacks_snoc)
qed

text \<open>
  Claim C3, as stated, fails. With the default threshold 0.02, attack time 120 ms and
  release time 1200 ms, a sample above the threshold at 0 s, one below at 0.01 s and
  one above at 0.5 s make the microphone active at the third sample, although the signal
  has then been above the threshold for 0 ms: the attack timer started at the first
  sample and the sample below the threshold did not reset it.
\<close>

theorem mic_two_spikes_counterexample:
  "\<not> active (snd (callbacks (MicrophoneMonitor 0.02 120 1200 0, MicState 0) [(0, 0.5), (0.01, 0)]))
   \<and> active (snd (callbacks (MicrophoneMonitor 0.02 120 1200 0, MicState 0)
        [(0, 0.5), (0.01, 0), (0.5, 0.5)]))
   \<and> \<not> held_above 0.02 120 [(0, 0.5), (0.01, 0), (0.5, 0.5)]"
  by (simp add: Let_def callback_def MicrophoneMonitor_def MicState_def mark_active_def
      mark_idle_def held_above_def)

text \<open>
  Claim C3, amended. The microphone becomes active only at a sample above the threshold
  that arrives at least \<open>attack_ms\<close> after the start of the attack timer, and idle only at
  a sample below the threshold that arrives at least \<open>release_ms\<close> after \<open>last_below\<close>.
  On a run from a new monitor the attack timer, when started, holds the time of a sample
  above the threshold, and \<open>last_below\<close> holds the time of the newest sample above the
  threshold (the time of creation when there is none). When all samples above the
  threshold lie in a window shorter than \<open>attack_ms\<close>, as those of a single short spike
  do, the microphone is never active.
\<close>

theorem mic_transitions:
  "(\<not> active (snd st) \<longrightarrow> active (snd (callback st (now, rms))) \<longrightarrow>
      rms \<ge> threshold (fst st)
      \<and> (now - last_above (fst (callback st (now, rms)))) * 1000 \<ge> real_of_int (attack_ms (fst st)))
   \<and> (active (snd st) \<longrightarrow> \<not> active (snd (callback st (now, rms))) \<longrightarrow>
      rms < threshold (fst st)
      \<and> (now - last_below (fst st)) * 1000 \<ge> real_of_int (release_ms (fst st)))
   \<and> (attack_reached (fst (callbacks (MicrophoneMonitor thr att rel c0, MicState c0) samples)) \<longrightarrow>
      (\<exists>y\<in>set samples. snd y \<ge> thr
         \<and> fst y = last_above (fst (callbacks (MicrophoneMonitor thr att rel c0, MicState c0) samples))))
   \<and> last_below (fst (callbacks (MicrophoneMonitor thr att rel c0, MicState c0) samples))
       = newest_above thr c0 samples
   \<and> ((\<forall>x\<in>set samples. snd x \<ge> thr \<longrightarrow> t0 \<le> fst x \<and> (fst x - t0) * 1000 < real_of_int att) \<longrightarrow>
      (\<forall>n. \<not> active (snd (callbacks (MicrophoneMonitor thr att rel c0, MicState c0)
                            (take n samples)))))"
  using callback_activates[of st now rms] callback_idles[of st now rms]
    run_last_above[of thr att rel c0 samples] run_last_below[of thr att rel c0 samples]
    spike_never_active[of samples thr t0 att rel c0]
  by blast

end
